theory Spec2Isabelle
  imports Complex_Main
begin

section \<open>Numbers held by the tensors\<close>

text \<open>
  The optimizer of \<^verbatim>\<open>bfgs_torch.py\<close> computes on \<^verbatim>\<open>float64\<close> tensors. Rounding,
  overflow and the sign of zero are abstracted away: a finite value is an exact real.
  The special values \<^verbatim>\<open>inf\<close>, \<^verbatim>\<open>-inf\<close> and \<^verbatim>\<open>nan\<close> are kept, because the divisions
  of the code raise nothing on a zero divisor and produce them instead.
\<close>

datatype fnum = Fin real | PInf | NInf | NaN

instantiation fnum :: "{plus, uminus, minus, times, inverse, abs, ord}"
begin

fun plus_fnum :: "fnum \<Rightarrow> fnum \<Rightarrow> fnum" where
  "Fin x + Fin y = Fin (x + y)"
| "NaN + _ = NaN"
| "_ + NaN = NaN"
| "PInf + NInf = NaN"
| "NInf + PInf = NaN"
| "PInf + _ = PInf"
| "_ + PInf = PInf"
| "NInf + _ = NInf"
| "_ + NInf = NInf"

fun uminus_fnum :: "fnum \<Rightarrow> fnum" where
  "- Fin x = Fin (- x)"
| "- PInf = NInf"
| "- NInf = PInf"
| "- NaN = NaN"

definition minus_fnum_def: "a - b = a + (- b :: fnum)"

fun times_fnum :: "fnum \<Rightarrow> fnum \<Rightarrow> fnum" where
  "Fin x * Fin y = Fin (x * y)"
| "NaN * _ = NaN"
| "_ * NaN = NaN"
| "PInf * PInf = PInf"
| "PInf * NInf = NInf"
| "NInf * PInf = NInf"
| "NInf * NInf = PInf"
| "PInf * Fin y = (if y = 0 then NaN else if 0 < y then PInf else NInf)"
| "NInf * Fin y = (if y = 0 then NaN else if 0 < y then NInf else PInf)"
| "Fin x * PInf = (if x = 0 then NaN else if 0 < x then PInf else NInf)"
| "Fin x * NInf = (if x = 0 then NaN else if 0 < x then NInf else PInf)"

text \<open>Division raises nothing: a zero divisor gives an infinity or \<^verbatim>\<open>nan\<close>.\<close>

fun divide_fnum :: "fnum \<Rightarrow> fnum \<Rightarrow> fnum" where
  "Fin x div Fin y =
     (if y = 0 then (if x = 0 then NaN else if 0 < x then PInf else NInf)
      else Fin (x / y))"
| "NaN div _ = NaN"
| "_ div NaN = NaN"
| "Fin x div PInf = Fin 0"
| "Fin x div NInf = Fin 0"
| "PInf div Fin y = (if 0 \<le> y then PInf else NInf)"
| "NInf div Fin y = (if 0 \<le> y then NInf else PInf)"
| "PInf div PInf = NaN"
| "PInf div NInf = NaN"
| "NInf div PInf = NaN"
| "NInf div NInf = NaN"

definition inverse_fnum_def: "inverse a = Fin 1 div (a :: fnum)"

fun abs_fnum :: "fnum \<Rightarrow> fnum" where
  "\<bar>Fin x\<bar> = Fin \<bar>x\<bar>"
| "\<bar>PInf\<bar> = PInf"
| "\<bar>NInf\<bar> = PInf"
| "\<bar>NaN\<bar> = NaN"

text \<open>Every comparison with \<^verbatim>\<open>nan\<close> is false, so \<open>\<not> a < b\<close> is not \<open>b \<le> a\<close>.\<close>

fun less_fnum :: "fnum \<Rightarrow> fnum \<Rightarrow> bool" where
  "Fin x < Fin y = (x < y)"
| "NaN < _ = False"
| "_ < NaN = False"
| "PInf < _ = False"
| "_ < NInf = False"
| "_ < PInf = True"
| "NInf < _ = True"

definition less_eq_fnum_def: "a \<le> b = (a < b \<or> (a = b \<and> a \<noteq> NaN))" for a b :: fnum

instance ..

end

fun is_finite :: "fnum \<Rightarrow> bool" where
  "is_finite (Fin x) = True"
| "is_finite _ = False"

text \<open>
  \<^verbatim>\<open>x ** 0.5\<close> and \<^verbatim>\<open>np.sqrt\<close>. The code applies them to sums of squares only, which are
  never negative.
\<close>

fun fsqrt :: "fnum \<Rightarrow> fnum" where
  "fsqrt (Fin x) = (if x < 0 then NaN else Fin (sqrt x))"
| "fsqrt PInf = PInf"
| "fsqrt NInf = PInf"
| "fsqrt NaN = NaN"

section \<open>Tensors as lists\<close>

text \<open>
  A one-dimensional tensor is a list, a two-dimensional one a list of rows. An operation
  on operands whose shapes disagree ends in \<open>ShapeMismatch\<close> (the broadcasting of an
  operand of size one is not modelled), the maximum of an empty tensor in
  \<open>EmptyReduction\<close>, arithmetic on \<^verbatim>\<open>None\<close> in \<open>TypeError\<close>.
\<close>

datatype error = TypeError | ShapeMismatch | EmptyReduction | LinAlgError

type_synonym vec = "fnum list"
type_synonym mat = "fnum list list"

definition ebind :: "error + 'a \<Rightarrow> ('a \<Rightarrow> error + 'b) \<Rightarrow> error + 'b" where
  "ebind m k = (case m of Inl e \<Rightarrow> Inl e | Inr x \<Rightarrow> k x)"

fun fsum :: "fnum list \<Rightarrow> fnum" where
  "fsum [] = Fin 0"
| "fsum (x # xs) = x + fsum xs"

text \<open>\<^verbatim>\<open>max\<close> of numpy and torch: \<^verbatim>\<open>nan\<close> wins, an empty tensor raises.\<close>

definition max2 :: "fnum \<Rightarrow> fnum \<Rightarrow> fnum" where
  "max2 a b = (if a = NaN \<or> b = NaN then NaN else if a < b then b else a)"

fun tensor_max :: "fnum list \<Rightarrow> error + fnum" where
  "tensor_max [] = Inl EmptyReduction"
| "tensor_max (x # xs) = Inr (foldl max2 x xs)"

definition vsub :: "vec \<Rightarrow> vec \<Rightarrow> error + vec" where
  "vsub xs ys = (if length xs = length ys then Inr (map2 (-) xs ys) else Inl ShapeMismatch)"

definition vdiv :: "vec \<Rightarrow> vec \<Rightarrow> error + vec" where
  "vdiv xs ys = (if length xs = length ys then Inr (map2 (/) xs ys) else Inl ShapeMismatch)"

definition dotp :: "vec \<Rightarrow> vec \<Rightarrow> fnum" where
  "dotp xs ys = fsum (map2 (*) xs ys)"

text \<open>\<^verbatim>\<open>torch.dot\<close>\<close>

definition dot :: "vec \<Rightarrow> vec \<Rightarrow> error + fnum" where
  "dot xs ys = (if length xs = length ys then Inr (dotp xs ys) else Inl ShapeMismatch)"

definition ncols :: "mat \<Rightarrow> nat" where
  "ncols M = (case M of [] \<Rightarrow> 0 | row # _ \<Rightarrow> length row)"

definition is_shape :: "nat \<Rightarrow> nat \<Rightarrow> mat \<Rightarrow> bool" where
  "is_shape m n M = (length M = m \<and> list_all (\<lambda>row. length row = n) M)"

text \<open>\<^verbatim>\<open>torch.matmul\<close> of a matrix and a vector, and of a vector and a matrix.\<close>

definition matvec :: "mat \<Rightarrow> vec \<Rightarrow> error + vec" where
  "matvec M v =
     (if is_shape (length M) (length v) M then Inr (map (\<lambda>row. dotp row v) M)
      else Inl ShapeMismatch)"

definition vecmat :: "vec \<Rightarrow> mat \<Rightarrow> error + vec" where
  "vecmat v M =
     (if is_shape (length v) (ncols M) M
      then Inr (map (\<lambda>j. fsum (map2 (\<lambda>x row. x * row ! j) v M)) [0..<ncols M])
      else Inl ShapeMismatch)"

text \<open>\<^verbatim>\<open>torch.ger\<close>, the outer product.\<close>

definition ger :: "vec \<Rightarrow> vec \<Rightarrow> mat" where
  "ger u v = map (\<lambda>x. map (\<lambda>y. x * y) v) u"

definition mdiv :: "mat \<Rightarrow> fnum \<Rightarrow> mat" where
  "mdiv M a = map (map (\<lambda>x. x / a)) M"

definition mscale :: "mat \<Rightarrow> fnum \<Rightarrow> mat" where
  "mscale M a = map (map (\<lambda>x. x * a)) M"

definition same_shape :: "mat \<Rightarrow> mat \<Rightarrow> bool" where
  "same_shape A B = list_all2 (\<lambda>a b. length a = length b) A B"

definition madd :: "mat \<Rightarrow> mat \<Rightarrow> error + mat" where
  "madd A B = (if same_shape A B then Inr (map2 (map2 (+)) A B) else Inl ShapeMismatch)"

definition msub :: "mat \<Rightarrow> mat \<Rightarrow> error + mat" where
  "msub A B = (if same_shape A B then Inr (map2 (map2 (-)) A B) else Inl ShapeMismatch)"

text \<open>\<^verbatim>\<open>torch.eye\<close>\<close>

definition eye :: "nat \<Rightarrow> mat" where
  "eye n = map (\<lambda>i. map (\<lambda>j. if i = j then Fin 1 else Fin 0) [0..<n]) [0..<n]"

text \<open>\<^verbatim>\<open>view(-1, 3)\<close>: rows of three, an error when the length is no multiple of 3.\<close>

fun view3 :: "vec \<Rightarrow> error + mat" where
  "view3 [] = Inr []"
| "view3 (x # y # z # xs) = ebind (view3 xs) (\<lambda>rows. Inr ([x, y, z] # rows))"
| "view3 _ = Inl ShapeMismatch"

text \<open>The sum of the squares of each row: \<^verbatim>\<open>(t ** 2).sum(axis=1)\<close>.\<close>

definition row_sumsq :: "mat \<Rightarrow> vec" where
  "row_sumsq M = map (\<lambda>row. fsum (map (\<lambda>x. x * x) row)) M"

section \<open>The optimizer and the system it moves\<close>

text \<open>
  The \<^verbatim>\<open>atoms\<close> object and \<^verbatim>\<open>torch.symeig\<close> are not part of the module: they are
  parameters. \<open>'a\<close> is the state of the atoms object.
\<close>

record 'a env =
  atoms_len :: "'a \<Rightarrow> nat"
  atoms_get_positions :: "'a \<Rightarrow> mat"
  atoms_get_forces :: "'a \<Rightarrow> mat"
  atoms_set_positions :: "'a \<Rightarrow> mat \<Rightarrow> 'a"
  torch_symeig :: "mat \<Rightarrow> error + (vec \<times> mat)"

text \<open>
  The fields of a \<^verbatim>\<open>BFGS\<close> object. \<open>H\<close> is only ever bound by \<^verbatim>\<open>self.H = self.H0\<close>, so
  from then on both names hold one tensor, and the in-place \<^verbatim>\<open>self.H -= val\<close> changes
  both.
\<close>

record 'a bfgs =
  maxstep :: fnum
  atoms :: 'a
  H :: "mat option"
  H0 :: mat
  r0 :: "vec option"
  f0 :: "vec option"
  fmax :: fnum
  nsteps :: nat
  max_steps :: nat

datatype warning = MaxstepTooLarge fnum

text \<open>\<^verbatim>\<open>BFGS.__init__(self, atoms, maxstep, fmax, alpha)\<close>, with the warnings it emits.\<close>

definition init :: "'a env \<Rightarrow> 'a \<Rightarrow> fnum \<Rightarrow> fnum \<Rightarrow> fnum \<Rightarrow> warning list \<times> 'a bfgs" where
  "init env a ms fm alpha =
     ((if ms > Fin 1 then [MaxstepTooLarge ms] else []),
      \<lparr>maxstep = ms, atoms = a, H = None,
       H0 = mscale (eye (3 * atoms_len env a)) alpha,
       r0 = None, f0 = None, fmax = fm, nsteps = 0, max_steps = 100000000\<rparr>)"

text \<open>\<^verbatim>\<open>BFGS.update(self, r, f, r0, f0)\<close>\<close>

definition update :: "'a bfgs \<Rightarrow> vec \<Rightarrow> vec \<Rightarrow> vec option \<Rightarrow> vec option \<Rightarrow> error + 'a bfgs" where
  "update s r f r0' f0' =
     (case H s of
        None \<Rightarrow> Inr (s\<lparr>H := Some (H0 s)\<rparr>)
      | Some Hm \<Rightarrow>
          (case r0' of None \<Rightarrow> Inl TypeError | Some r0v \<Rightarrow>
           ebind (vsub r r0v) (\<lambda>dr.
           ebind (tensor_max (map abs dr)) (\<lambda>m.
           if m < Fin (1 / 10000000) then Inr s
           else
             (case f0' of None \<Rightarrow> Inl TypeError | Some f0v \<Rightarrow>
              ebind (vsub f f0v) (\<lambda>df.
              ebind (dot dr df) (\<lambda>a.
              ebind (matvec Hm dr) (\<lambda>dg.
              ebind (dot dr dg) (\<lambda>b.
              ebind (madd (mdiv (ger df df) a) (mdiv (ger dg dg) b)) (\<lambda>val.
              ebind (msub Hm val) (\<lambda>Hn.
              Inr (s\<lparr>H := Some Hn, H0 := Hn\<rparr>))))))))))))"

text \<open>\<^verbatim>\<open>BFGS.converged(self)\<close>\<close>

definition converged :: "'a env \<Rightarrow> 'a bfgs \<Rightarrow> error + bool" where
  "converged env s =
     (let forces = atoms_get_forces env (atoms s)
      in ebind (tensor_max (row_sumsq forces)) (\<lambda>m. Inr (m < fmax s * fmax s)))"

text \<open>\<^verbatim>\<open>BFGS.get_forces\<close>, \<^verbatim>\<open>BFGS.get_positions\<close>, \<^verbatim>\<open>BFGS.set_positions\<close>\<close>

definition get_forces :: "'a env \<Rightarrow> 'a bfgs \<Rightarrow> mat" where
  "get_forces env s = atoms_get_forces env (atoms s)"

definition get_positions :: "'a env \<Rightarrow> 'a bfgs \<Rightarrow> mat" where
  "get_positions env s = atoms_get_positions env (atoms s)"

definition set_positions :: "'a env \<Rightarrow> 'a bfgs \<Rightarrow> mat \<Rightarrow> error + 'a bfgs" where
  "set_positions env s upd =
     (let r = get_positions env s
      in ebind (madd r upd) (\<lambda>new. Inr (s\<lparr>atoms := atoms_set_positions env (atoms s) new\<rparr>)))"

text \<open>\<^verbatim>\<open>BFGS.determine_step(self, dr, steplengths)\<close>\<close>

definition determine_step :: "'a bfgs \<Rightarrow> mat \<Rightarrow> vec \<Rightarrow> error + mat" where
  "determine_step s dr steplengths =
     ebind (tensor_max steplengths) (\<lambda>maxsteplength.
     if maxsteplength \<ge> maxstep s then Inr (mscale dr (maxstep s / maxsteplength))
     else Inr dr)"

text \<open>The per-particle lengths \<^verbatim>\<open>(dr1 ** 2).sum(1) ** 0.5\<close> that \<^verbatim>\<open>step\<close> computes.\<close>

definition row_lengths :: "mat \<Rightarrow> vec" where
  "row_lengths M = map fsqrt (row_sumsq M)"

text \<open>\<^verbatim>\<open>BFGS.step(self)\<close>\<close>

definition step :: "'a env \<Rightarrow> 'a bfgs \<Rightarrow> error + 'a bfgs" where
  "step env s =
     (let r = get_positions env s;
          f = concat (get_forces env s);
          arg1 = concat r;
          arg2 = f
      in ebind (update s arg1 arg2 (r0 s) (f0 s)) (\<lambda>s1.
         case H s1 of None \<Rightarrow> Inl TypeError | Some Hm \<Rightarrow>
         ebind (torch_symeig env Hm) (\<lambda>(omega1, V1).
         ebind (vecmat arg2 V1) (\<lambda>p.
         ebind (vdiv p (map abs omega1)) (\<lambda>q.
         ebind (matvec V1 q) (\<lambda>flat.
         ebind (view3 flat) (\<lambda>dr1.
         let steplengths1 = row_lengths dr1
         in ebind (determine_step s1 dr1 steplengths1) (\<lambda>dr1.
            ebind (set_positions env s1 dr1) (\<lambda>s2.
            Inr (s2\<lparr>r0 := Some arg1, f0 := Some arg2\<rparr>))))))))))"

text \<open>
  \<^verbatim>\<open>BFGS.run(self, fmax)\<close>. The result is the list of the printed lines (the step count
  and the largest force length) and how the loop ended. The loop stops at the latest when
  \<open>nsteps\<close> reaches \<open>max_steps\<close>, since a step changes neither.
\<close>

function run :: "'a env \<Rightarrow> fnum \<Rightarrow> 'a bfgs \<Rightarrow> (nat \<times> fnum) list \<times> (error + 'a bfgs)" where
  "run env fmax_arg s =
     (case converged env s of
        Inl e \<Rightarrow> ([], Inl e)
      | Inr c \<Rightarrow>
          if \<not> c \<and> nsteps s < max_steps s then
            (case step env s of
               Inl e \<Rightarrow> ([], Inl e)
             | Inr s1 \<Rightarrow>
                 let s2 = s1\<lparr>nsteps := nsteps s1 + 1\<rparr>;
                     forces = atoms_get_forces env (atoms s2)
                 in (case tensor_max (row_sumsq forces) of
                       Inl e \<Rightarrow> ([], Inl e)
                     | Inr m \<Rightarrow>
                         (case run env fmax_arg s2 of
                            (out, res) \<Rightarrow> ((nsteps s2, fsqrt m) # out, res))))
          else ([], Inr s))"
  by pat_completeness auto
termination
proof (relation "measure (\<lambda>(env, fmax_arg, s). max_steps s - nsteps s)")
  show "wf (measure (\<lambda>(env, fmax_arg, s). max_steps s - nsteps s))" by simp
next
  fix env :: "'a env" and fmax_arg :: fnum and s s1 s2 :: "'a bfgs" and c
  assume c: "\<not> c \<and> nsteps s < max_steps s" and st: "step env s = Inr s1"
    and s2: "s2 = s1\<lparr>nsteps := nsteps s1 + 1\<rparr>"
  have bind: "(ebind m k = Inr y) = (\<exists>x. m = Inr x \<and> k x = Inr y)"
    for m :: "error + 'b" and k :: "'b \<Rightarrow> error + 'c" and y
    by (cases m) (simp_all add: ebind_def)
  have upd: "nsteps t' = nsteps t \<and> max_steps t' = max_steps t"
    if "update t r f a b = Inr t'" for t t' :: "'a bfgs" and r f a b
    using that unfolding update_def
    by (cases "H t") (auto simp: bind split: option.splits if_splits)
  have setp: "nsteps t' = nsteps t \<and> max_steps t' = max_steps t"
    if "set_positions env t u = Inr t'" for t t' :: "'a bfgs" and u
    using that by (auto simp: set_positions_def Let_def bind)
  have "nsteps s1 = nsteps s \<and> max_steps s1 = max_steps s"
    using st unfolding step_def Let_def
    by (auto simp: bind split: option.splits prod.splits dest!: setp upd)
  with c s2
  show "((env, fmax_arg, s2), (env, fmax_arg, s))
          \<in> measure (\<lambda>(env, fmax_arg, s). max_steps s - nsteps s)"
    by auto
qed

declare run.simps [simp del]

section \<open>Properties of states\<close>

text \<open>A square matrix that equals its transpose, entry by entry.\<close>

definition symmetric :: "mat \<Rightarrow> bool" where
  "symmetric M =
     (is_shape (length M) (length M) M \<and>
      list_all (\<lambda>i. list_all (\<lambda>j. M ! i ! j = M ! j ! i) [0..<length M]) [0..<length M])"

text \<open>The matrix the optimizer holds, and the one it starts from, are symmetric.\<close>

definition sym_inv :: "'a bfgs \<Rightarrow> bool" where
  "sym_inv s = (symmetric (H0 s) \<and> (case H s of None \<Rightarrow> True | Some Hm \<Rightarrow> symmetric Hm))"

text \<open>The Euclidean length of a displacement of real components.\<close>

definition row_norm :: "real list \<Rightarrow> real" where
  "row_norm row = sqrt (\<Sum>x\<leftarrow>row. x\<^sup>2)"

text \<open>
  Modelled from the spec: \<^verbatim>\<open>torch.symeig\<close> is a library function, not part of the module.
  The spec says that it computes the full eigendecomposition of the symmetric matrix,
  yielding eigenvalues \<open>w\<close> and an orthonormal eigenvector matrix \<open>V\<close>: the columns of \<open>V\<close>
  are orthonormal and \<open>A v\<^sub>j = w\<^sub>j v\<^sub>j\<close> for each column \<open>v\<^sub>j\<close>. A square matrix with
  orthonormal columns has orthonormal rows too; both are stated. \<open>column\<close> is only applied
  to indices below the row length.
\<close>

definition rdot :: "real list \<Rightarrow> real list \<Rightarrow> real" where
  "rdot xs ys = (\<Sum>(x, y)\<leftarrow>zip xs ys. x * y)"

definition column :: "real list list \<Rightarrow> nat \<Rightarrow> real list" where
  "column V j = map (\<lambda>row. row ! j) V"

definition orthonormal :: "real list list \<Rightarrow> bool" where
  "orthonormal vs =
     list_all (\<lambda>i. list_all (\<lambda>j. rdot (vs ! i) (vs ! j) = (if i = j then 1 else 0))
                 [0..<length vs]) [0..<length vs]"

definition eigen_decomposition :: "real list list \<Rightarrow> real list \<Rightarrow> real list list \<Rightarrow> bool" where
  "eigen_decomposition A w V =
     (length w = length A \<and> length V = length A
      \<and> list_all (\<lambda>row. length row = length A) V
      \<and> orthonormal V
      \<and> orthonormal (map (column V) [0..<length A])
      \<and> list_all (\<lambda>j. map (\<lambda>row. rdot row (column V j)) A = map (\<lambda>x. w ! j * x) (column V j))
           [0..<length A])"

section \<open>Concrete systems for evaluation\<close>

text \<open>
  An eigendecomposition for the multiples of the identity matrix only: the eigenvalues
  are the diagonal, the eigenvectors the unit vectors.
\<close>

definition scalar_symeig :: "mat \<Rightarrow> error + (vec \<times> mat)" where
  "scalar_symeig M =
     (case M of
        [] \<Rightarrow> Inl LinAlgError
      | row # _ \<Rightarrow>
          (case row of
             [] \<Rightarrow> Inl LinAlgError
           | c # _ \<Rightarrow>
               if M = mscale (eye (length M)) c \<and> is_finite c
               then Inr (replicate (length M) c, eye (length M))
               else Inl LinAlgError))"

text \<open>
  A system whose state is its positions, with the forces a function of them; when it is
  not \<open>movable\<close> it ignores the positions written to it.
\<close>

definition test_env :: "(mat \<Rightarrow> mat) \<Rightarrow> bool \<Rightarrow> mat env" where
  "test_env force movable =
     \<lparr>atoms_len = length,
      atoms_get_positions = (\<lambda>a. a),
      atoms_get_forces = force,
      atoms_set_positions = (\<lambda>a new. if movable then new else a),
      torch_symeig = scalar_symeig\<rparr>"

text \<open>
  One particle in a harmonic well, \<open>f = - 70 r\<close>, started at \<open>(0, 0, 1/700)\<close> with the
  default \<open>maxstep = 0.04\<close>, \<open>fmax = 0.05\<close> and \<open>alpha = 70\<close>; and the state the loop ends in.
\<close>

definition harmonic_env :: "mat env" where
  "harmonic_env = test_env (map (map (\<lambda>x. Fin (- 70) * x))) True"

definition harmonic_start :: "mat bfgs" where
  "harmonic_start =
     snd (init harmonic_env [[Fin 0, Fin 0, Fin (1 / 700)]] (Fin (1 / 25)) (Fin (1 / 20)) (Fin 70))"

definition harmonic_end :: "mat bfgs" where
  "harmonic_end =
     \<lparr>maxstep = Fin (1 / 25), atoms = [[Fin 0, Fin 0, Fin 0]],
      H = Some [[Fin 70, Fin 0, Fin 0], [Fin 0, Fin 70, Fin 0], [Fin 0, Fin 0, Fin 70]],
      H0 = [[Fin 70, Fin 0, Fin 0], [Fin 0, Fin 70, Fin 0], [Fin 0, Fin 0, Fin 70]],
      r0 = Some [Fin 0, Fin 0, Fin (1 / 700)], f0 = Some [Fin 0, Fin 0, Fin (- 1 / 10)],
      fmax = Fin (1 / 20), nsteps = 1, max_steps = 100000000\<rparr>"

text \<open>
  One particle at the origin under the constant force \<open>(0, 0, -1)\<close>, with \<open>alpha = 70\<close> and
  \<open>maxstep = 0.04\<close>: in a system that takes the new positions, and in one that ignores
  them, so that nothing changes between two steps.
\<close>

definition constant_force_env :: "bool \<Rightarrow> mat env" where
  "constant_force_env movable = test_env (\<lambda>a. [[Fin 0, Fin 0, Fin (- 1)]]) movable"

definition origin_start :: "bool \<Rightarrow> mat bfgs" where
  "origin_start movable =
     snd (init (constant_force_env movable) [[Fin 0, Fin 0, Fin 0]] (Fin (1 / 25)) (Fin (1 / 20)) (Fin 70))"

definition frozen_next :: "mat bfgs" where
  "frozen_next =
     \<lparr>maxstep = Fin (1 / 25), atoms = [[Fin 0, Fin 0, Fin 0]],
      H = Some [[Fin 70, Fin 0, Fin 0], [Fin 0, Fin 70, Fin 0], [Fin 0, Fin 0, Fin 70]],
      H0 = [[Fin 70, Fin 0, Fin 0], [Fin 0, Fin 70, Fin 0], [Fin 0, Fin 0, Fin 70]],
      r0 = Some [Fin 0, Fin 0, Fin 0], f0 = Some [Fin 0, Fin 0, Fin (- 1)],
      fmax = Fin (1 / 20), nsteps = 0, max_steps = 100000000\<rparr>"

section \<open>Basic facts\<close>

lemma ebind_simps [simp]: "ebind (Inr x) k = k x" "ebind (Inl e) k = Inl e"
  by (simp_all add: ebind_def)

lemma ebind_eq_Inr: "(ebind m k = Inr y) = (\<exists>x. m = Inr x \<and> k x = Inr y)"
  by (cases m) simp_all

lemma fnum_mult_commute: "a * b = b * (a :: fnum)"
  by (cases a; cases b) (simp_all add: mult.commute)

lemma fnum_le_not_less: "a \<le> b \<Longrightarrow> \<not> b < (a :: fnum)"
  by (cases a; cases b) (auto simp: less_eq_fnum_def)

lemma eye_shape: "is_shape n n (eye n)"
  by (simp add: is_shape_def eye_def list_all_iff)

lemma eye_nth: "i < n \<Longrightarrow> j < n \<Longrightarrow> eye n ! i ! j = (if i = j then Fin 1 else Fin 0)"
  by (simp add: eye_def)

lemma mscale_shape: "is_shape m n M \<Longrightarrow> is_shape m n (mscale M c)"
  by (simp add: is_shape_def mscale_def list_all_iff)

lemma mscale_nth: "is_shape m n M \<Longrightarrow> i < m \<Longrightarrow> j < n \<Longrightarrow> mscale M c ! i ! j = M ! i ! j * c"
  by (simp add: is_shape_def mscale_def list_all_iff)

lemma eye_3: "eye 3 = [[Fin 1, Fin 0, Fin 0], [Fin 0, Fin 1, Fin 0], [Fin 0, Fin 0, Fin 1]]"
  by (simp add: eye_def upt_rec)

lemma is_shape_nth: "is_shape m n M \<Longrightarrow> i < m \<Longrightarrow> length (M ! i) = n"
  by (simp add: is_shape_def list_all_length)

lemma is_shape_length: "is_shape m n M \<Longrightarrow> length M = m"
  by (simp add: is_shape_def)

lemma is_shapeI: "length M = m \<Longrightarrow> (\<And>i. i < m \<Longrightarrow> length (M ! i) = n) \<Longrightarrow> is_shape m n M"
  by (simp add: is_shape_def list_all_length)

lemma same_shape_iff:
  "same_shape A B = (length A = length B \<and> (\<forall>i < length A. length (A ! i) = length (B ! i)))"
  by (simp add: same_shape_def list_all2_conv_all_nth)

lemma ger_shape: "is_shape (length u) (length v) (ger u v)"
  by (simp add: is_shape_def ger_def list_all_iff)

lemma ger_nth: "i < length u \<Longrightarrow> j < length v \<Longrightarrow> ger u v ! i ! j = u ! i * v ! j"
  by (simp add: ger_def)

lemma mdiv_shape: "is_shape m n M \<Longrightarrow> is_shape m n (mdiv M c)"
  by (simp add: is_shape_def mdiv_def list_all_iff)

lemma mdiv_nth: "is_shape m n M \<Longrightarrow> i < m \<Longrightarrow> j < n \<Longrightarrow> mdiv M c ! i ! j = M ! i ! j / c"
  by (simp add: is_shape_def mdiv_def list_all_length)

lemma map2_shape:
  "is_shape m n A \<Longrightarrow> is_shape m n B \<Longrightarrow> is_shape m n (map2 (map2 g) A B)"
  by (auto simp: is_shape_def list_all_length)

lemma map2_nth:
  "is_shape m n A \<Longrightarrow> is_shape m n B \<Longrightarrow> i < m \<Longrightarrow> j < n \<Longrightarrow>
   map2 (map2 g) A B ! i ! j = g (A ! i ! j) (B ! i ! j)"
  by (auto simp: is_shape_def list_all_length)

lemma same_shape_square:
  assumes "is_shape k k A" "is_shape n n B" "same_shape A B"
  shows "k = n"
  using assms by (auto simp: same_shape_iff is_shape_def list_all_length)

lemma same_shapeI: "is_shape m n A \<Longrightarrow> is_shape m n B \<Longrightarrow> same_shape A B"
  by (auto simp: same_shape_iff is_shape_def list_all_length)

lemma madd_Inr: "(madd A B = Inr C) = (same_shape A B \<and> C = map2 (map2 (+)) A B)"
  by (auto simp: madd_def)

lemma msub_Inr: "(msub A B = Inr C) = (same_shape A B \<and> C = map2 (map2 (-)) A B)"
  by (auto simp: msub_def)

lemma rank_update_entries:
  assumes sq: "is_shape n n Hm"
    and val: "madd (mdiv (ger df df) a) (mdiv (ger dg dg) b) = Inr val"
    and Hn: "msub Hm val = Inr Hn"
  shows "is_shape n n Hn \<and> length df = n \<and> length dg = n
    \<and> (\<forall>i<n. \<forall>j<n. Hn ! i ! j = Hm ! i ! j - (df ! i * df ! j / a + dg ! i * dg ! j / b))"
proof -
  let ?X = "mdiv (ger df df) a" and ?Y = "mdiv (ger dg dg) b"
  have X: "is_shape (length df) (length df) ?X" by (rule mdiv_shape[OF ger_shape])
  have Y: "is_shape (length dg) (length dg) ?Y" by (rule mdiv_shape[OF ger_shape])
  from val have ss: "same_shape ?X ?Y" and v: "val = map2 (map2 (+)) ?X ?Y"
    by (simp_all add: madd_Inr)
  from same_shape_square[OF X Y ss] have k: "length df = length dg" .
  with Y have Y': "is_shape (length df) (length df) ?Y" by simp
  have V: "is_shape (length df) (length df) val"
    unfolding v by (rule map2_shape[OF X Y'])
  from Hn have ss2: "same_shape Hm val" and h: "Hn = map2 (map2 (-)) Hm val"
    by (simp_all add: msub_Inr)
  from same_shape_square[OF sq V ss2] have n: "n = length df" .
  have V': "is_shape n n val" using V n by simp
  have X': "is_shape n n ?X" and Y'': "is_shape n n ?Y" using X Y' n by simp_all
  have "is_shape n n Hn" unfolding h by (rule map2_shape[OF sq V'])
  moreover have "Hn ! i ! j = Hm ! i ! j - (df ! i * df ! j / a + dg ! i * dg ! j / b)"
    if "i < n" "j < n" for i j
  proof -
    have "Hn ! i ! j = Hm ! i ! j - val ! i ! j"
      unfolding h by (rule map2_nth[OF sq V' that])
    also have "val ! i ! j = ?X ! i ! j + ?Y ! i ! j"
      unfolding v by (rule map2_nth[OF X' Y'' that])
    also have "?X ! i ! j = df ! i * df ! j / a"
      using that n by (simp add: mdiv_nth[OF ger_shape] ger_nth)
    also have "?Y ! i ! j = dg ! i * dg ! j / b"
      using that n k by (simp add: mdiv_nth[OF ger_shape] ger_nth)
    finally show ?thesis .
  qed
  ultimately show ?thesis using n k by simp
qed

lemma update_set_cases:
  assumes "H s = Some Hm" and "update s r f r0' f0' = Inr s'"
  shows "s' = s \<or> (\<exists>r0v f0v dr df a dg b val Hn.
      r0' = Some r0v \<and> f0' = Some f0v \<and> vsub r r0v = Inr dr \<and> vsub f f0v = Inr df \<and>
      dot dr df = Inr a \<and> matvec Hm dr = Inr dg \<and> dot dr dg = Inr b \<and>
      madd (mdiv (ger df df) a) (mdiv (ger dg dg) b) = Inr val \<and> msub Hm val = Inr Hn \<and>
      s' = s\<lparr>H := Some Hn, H0 := Hn\<rparr>)"
  using assms unfolding update_def
  by (auto simp: ebind_eq_Inr split: option.splits if_splits)

lemma symmetric_iff:
  "symmetric M = (is_shape (length M) (length M) M \<and> (\<forall>i<length M. \<forall>j<length M. M ! i ! j = M ! j ! i))"
  by (auto simp: symmetric_def list_all_iff)

lemma update_nondegenerate:
  assumes Hs: "H s = Some Hm" and sq: "is_shape n n Hm"
    and len: "length r = n" "length r0v = n" "length f = n" "length f0v = n"
    and m: "tensor_max (map abs (map2 (-) r r0v)) = Inr m" and big: "\<not> m < Fin (1 / 10000000)"
  shows "\<exists>Hn. update s r f (Some r0v) (Some f0v) = Inr (s\<lparr>H := Some Hn, H0 := Hn\<rparr>)
    \<and> is_shape n n Hn
    \<and> (\<forall>i<n. \<forall>j<n. Hn ! i ! j =
          Hm ! i ! j - ((map2 (-) f f0v) ! i * (map2 (-) f f0v) ! j / dotp (map2 (-) r r0v) (map2 (-) f f0v)
             + dotp (Hm ! i) (map2 (-) r r0v) * dotp (Hm ! j) (map2 (-) r r0v)
                 / dotp (map2 (-) r r0v) (map (\<lambda>row. dotp row (map2 (-) r r0v)) Hm)))"
proof -
  let ?dr = "map2 (-) r r0v" and ?df = "map2 (-) f f0v"
  let ?dg = "map (\<lambda>row. dotp row ?dr) Hm"
  let ?a = "dotp ?dr ?df" and ?b = "dotp ?dr ?dg"
  let ?X = "mdiv (ger ?df ?df) ?a" and ?Y = "mdiv (ger ?dg ?dg) ?b"
  have ldr: "length ?dr = n" and ldf: "length ?df = n" using len by simp_all
  have ldg: "length ?dg = n" using sq by (simp add: is_shape_def)
  have X: "is_shape n n ?X" using mdiv_shape[OF ger_shape[of ?df ?df]] ldf by simp
  have Y: "is_shape n n ?Y" using mdiv_shape[OF ger_shape[of ?dg ?dg]] ldg by simp
  have val: "madd ?X ?Y = Inr (map2 (map2 (+)) ?X ?Y)"
    using same_shapeI[OF X Y] by (simp add: madd_def)
  have V: "is_shape n n (map2 (map2 (+)) ?X ?Y)" by (rule map2_shape[OF X Y])
  have Hn: "msub Hm (map2 (map2 (+)) ?X ?Y) = Inr (map2 (map2 (-)) Hm (map2 (map2 (+)) ?X ?Y))"
    using same_shapeI[OF sq V] by (simp add: msub_def)
  let ?Hn = "map2 (map2 (-)) Hm (map2 (map2 (+)) ?X ?Y)"
  have mv: "matvec Hm ?dr = Inr ?dg"
    using sq ldr by (simp add: matvec_def is_shape_def)
  have upd: "update s r f (Some r0v) (Some f0v) = Inr (s\<lparr>H := Some ?Hn, H0 := ?Hn\<rparr>)"
    using Hs len m big ldr ldf ldg val Hn mv
    by (simp add: update_def vsub_def dot_def)
  from rank_update_entries[OF sq val Hn]
  have ent: "is_shape n n ?Hn" "\<forall>i<n. \<forall>j<n. ?Hn ! i ! j = Hm ! i ! j - (?df ! i * ?df ! j / ?a + ?dg ! i * ?dg ! j / ?b)"
    by simp_all
  have dgn: "?dg ! i = dotp (Hm ! i) ?dr" if "i < n" for i
    using that sq by (simp add: is_shape_def)
  show ?thesis
    apply (rule exI[of _ ?Hn])
    using upd ent dgn by simp
qed

lemma div_zero_not_finite: "\<not> is_finite (x / Fin 0)"
  by (cases x) simp_all

lemma add_not_finite: "\<not> is_finite x \<or> \<not> is_finite y \<Longrightarrow> \<not> is_finite (x + y)"
  by (cases x; cases y) simp_all

lemma sub_not_finite: "\<not> is_finite y \<Longrightarrow> \<not> is_finite (x - y)"
  by (cases x; cases y) (simp_all add: minus_fnum_def)

lemma symmetric_mscale_eye: "symmetric (mscale (eye n) alpha)"
proof -
  have sh: "is_shape n n (mscale (eye n) alpha)" by (rule mscale_shape[OF eye_shape])
  then have l: "length (mscale (eye n) alpha) = n" by (simp add: is_shape_def)
  show ?thesis
    unfolding symmetric_iff l using sh
    by (auto simp: mscale_nth[OF eye_shape] eye_nth)
qed

lemma rank_update_symmetric:
  assumes sym: "symmetric Hm"
    and val: "madd (mdiv (ger df df) a) (mdiv (ger dg dg) b) = Inr val"
    and Hn: "msub Hm val = Inr Hn"
  shows "symmetric Hn"
proof -
  let ?n = "length Hm"
  from sym have sq: "is_shape ?n ?n Hm"
    and s: "\<And>i j. i < ?n \<Longrightarrow> j < ?n \<Longrightarrow> Hm ! i ! j = Hm ! j ! i"
    by (simp_all add: symmetric_iff)
  from rank_update_entries[OF sq val Hn]
  have sh: "is_shape ?n ?n Hn"
    and e: "\<And>i j. i < ?n \<Longrightarrow> j < ?n \<Longrightarrow>
        Hn ! i ! j = Hm ! i ! j - (df ! i * df ! j / a + dg ! i * dg ! j / b)"
    by simp_all
  from sh have l: "length Hn = ?n" by (simp add: is_shape_def)
  have "Hn ! i ! j = Hn ! j ! i" if "i < ?n" "j < ?n" for i j
    using e[OF that] e[OF that(2,1)] s[OF that]
    by (simp add: fnum_mult_commute[of "df ! i"] fnum_mult_commute[of "dg ! i"])
  with sh l show ?thesis by (simp add: symmetric_iff)
qed

lemma view3_rows: "view3 xs = Inr M \<Longrightarrow> list_all (\<lambda>row. length row = 3) M"
proof (induction xs arbitrary: M rule: view3.induct)
  case 1
  then show ?case by simp
next
  case (2 x y z xs)
  then show ?case by (auto simp: ebind_eq_Inr)
qed simp_all

lemma update_degenerate:
  assumes "H s = Some Hm" and "vsub r r0v = Inr dr" and "tensor_max (map abs dr) = Inr m"
    and "m < Fin (1 / 10000000)"
  shows "update s r f (Some r0v) f0' = Inr s"
  using assms by (simp add: update_def)

lemma update_frame:
  assumes "update s r f a b = Inr s'"
  shows "nsteps s' = nsteps s \<and> max_steps s' = max_steps s \<and> atoms s' = atoms s
    \<and> maxstep s' = maxstep s \<and> fmax s' = fmax s \<and> r0 s' = r0 s \<and> f0 s' = f0 s \<and> H s' \<noteq> None"
  using assms unfolding update_def
  by (cases "H s") (auto simp: ebind_eq_Inr split: option.splits if_splits)

lemma set_positions_Inr:
  "(set_positions env s u = Inr s') =
     (same_shape (get_positions env s) u \<and>
      s' = s\<lparr>atoms := atoms_set_positions env (atoms s) (map2 (map2 (+)) (get_positions env s) u)\<rparr>)"
  by (auto simp: set_positions_def Let_def ebind_eq_Inr madd_Inr)

lemma step_Inr:
  assumes "step env s = Inr s'"
  shows "\<exists>s1 Hm dr1 dr2.
      update s (concat (get_positions env s)) (concat (get_forces env s)) (r0 s) (f0 s) = Inr s1
    \<and> H s1 = Some Hm
    \<and> list_all (\<lambda>row. length row = 3) dr1
    \<and> determine_step s1 dr1 (row_lengths dr1) = Inr dr2
    \<and> same_shape (get_positions env s1) dr2
    \<and> s' = s1\<lparr>atoms := atoms_set_positions env (atoms s1) (map2 (map2 (+)) (get_positions env s1) dr2),
               r0 := Some (concat (get_positions env s)), f0 := Some (concat (get_forces env s))\<rparr>"
proof -
  from assms obtain s1 Hm flat dr1 dr2 s2 where
    u: "update s (concat (get_positions env s)) (concat (get_forces env s)) (r0 s) (f0 s) = Inr s1"
    and h: "H s1 = Some Hm" and v: "view3 flat = Inr dr1"
    and d: "determine_step s1 dr1 (row_lengths dr1) = Inr dr2"
    and p: "set_positions env s1 dr2 = Inr s2"
    and e: "s' = s2\<lparr>r0 := Some (concat (get_positions env s)), f0 := Some (concat (get_forces env s))\<rparr>"
    unfolding step_def Let_def
    by (auto simp: ebind_eq_Inr split: option.splits prod.splits)
  from p have "same_shape (get_positions env s1) dr2"
    and "s2 = s1\<lparr>atoms := atoms_set_positions env (atoms s1) (map2 (map2 (+)) (get_positions env s1) dr2)\<rparr>"
    by (simp_all add: set_positions_Inr)
  with u h view3_rows[OF v] d e show ?thesis by blast
qed

lemma determine_step_shape:
  assumes "determine_step s dr sl = Inr dr2"
  shows "sl \<noteq> [] \<and> same_shape dr dr2"
proof -
  have "same_shape dr dr" by (simp add: same_shape_iff)
  moreover have "same_shape dr (mscale dr c)" for c
    by (simp add: same_shape_iff mscale_def)
  ultimately show ?thesis
    using assms by (cases sl) (auto simp: determine_step_def ebind_eq_Inr split: if_splits)
qed

lemma sub_self_finite: "is_finite x \<Longrightarrow> x - x = Fin 0"
  by (cases x) (simp_all add: minus_fnum_def)

lemma map2_sub_self: "list_all is_finite xs \<Longrightarrow> map abs (map2 (-) xs xs) = replicate (length xs) (Fin 0)"
  by (induction xs) (simp_all add: sub_self_finite)

lemma foldl_max2_zeros: "foldl max2 (Fin 0) (replicate n (Fin 0)) = Fin 0"
  by (induction n) (simp_all add: max2_def)

lemma tensor_max_zeros: "n > 0 \<Longrightarrow> tensor_max (replicate n (Fin 0)) = Inr (Fin 0)"
  by (cases n) (simp_all add: foldl_max2_zeros)

lemma step_positions_nonempty:
  assumes "step env s = Inr s'"
  shows "concat (get_positions env s) \<noteq> []"
proof -
  from step_Inr[OF assms] obtain s1 Hm dr1 dr2 where
    u: "update s (concat (get_positions env s)) (concat (get_forces env s)) (r0 s) (f0 s) = Inr s1"
    and rows: "list_all (\<lambda>row. length row = 3) dr1"
    and d: "determine_step s1 dr1 (row_lengths dr1) = Inr dr2"
    and ss: "same_shape (get_positions env s1) dr2"
    by blast
  from update_frame[OF u] have p: "get_positions env s1 = get_positions env s"
    by (simp add: get_positions_def)
  from determine_step_shape[OF d] have ne: "dr1 \<noteq> []" and ss1: "same_shape dr1 dr2"
    by (auto simp: row_lengths_def row_sumsq_def)
  let ?P = "get_positions env s"
  from ss ss1 p have l: "length ?P = length dr1" and r: "\<forall>i<length dr1. length (?P ! i) = length (dr1 ! i)"
    by (auto simp: same_shape_iff)
  from ne l have "?P \<noteq> []" by auto
  then obtain row rest where P: "?P = row # rest" by (cases ?P) auto
  from r rows ne have "length (?P ! 0) = 3" by (auto simp: list_all_length)
  with P show ?thesis by auto
qed

lemma fsum_Fin: "fsum (map Fin xs) = Fin (sum_list xs)"
  by (induction xs) simp_all

lemma row_sumsq_Fin:
  "row_sumsq (map (map Fin) F) = map Fin (map (\<lambda>row. \<Sum>x\<leftarrow>row. x\<^sup>2) F)"
proof -
  have "fsum (map (\<lambda>x. x * x) (map Fin row)) = Fin (\<Sum>x\<leftarrow>row. x\<^sup>2)" for row
    using fsum_Fin[of "map (\<lambda>x. x\<^sup>2) row"] by (simp add: comp_def power2_eq_square)
  then show ?thesis by (simp add: row_sumsq_def)
qed




lemma row_lengths_Fin: "row_lengths (map (map Fin) D) = map Fin (map row_norm D)"
proof -
  have "0 \<le> (\<Sum>x\<leftarrow>row. x\<^sup>2)" for row :: "real list"
    by (rule sum_list_nonneg) auto
  then have "fsqrt (Fin (\<Sum>x\<leftarrow>row. x\<^sup>2)) = Fin (row_norm row)" for row
    by (simp add: row_norm_def not_less[symmetric])
  then show ?thesis
    by (simp add: row_lengths_def row_sumsq_Fin comp_def)
qed



lemma row_norm_nonneg: "0 \<le> row_norm row"
  by (auto simp: row_norm_def intro!: sum_list_nonneg)



section \<open>Evaluating the concrete systems\<close>

lemma scalar_symeig_70:
  "scalar_symeig [[Fin 70, Fin 0, Fin 0], [Fin 0, Fin 70, Fin 0], [Fin 0, Fin 0, Fin 70]] =
     Inr ([Fin 70, Fin 70, Fin 70], eye 3)"
  by (simp add: scalar_symeig_def eye_def mscale_def upt_rec)

lemma harmonic_start_eq:
  "harmonic_start =
     \<lparr>maxstep = Fin (1 / 25), atoms = [[Fin 0, Fin 0, Fin (1 / 700)]], H = None,
      H0 = [[Fin 70, Fin 0, Fin 0], [Fin 0, Fin 70, Fin 0], [Fin 0, Fin 0, Fin 70]],
      r0 = None, f0 = None, fmax = Fin (1 / 20), nsteps = 0, max_steps = 100000000\<rparr>"
  by (simp add: harmonic_start_def harmonic_env_def init_def test_env_def eye_3 mscale_def)

lemma harmonic_end_H:
  "H harmonic_end = Some [[Fin 70, Fin 0, Fin 0], [Fin 0, Fin 70, Fin 0], [Fin 0, Fin 0, Fin 70]]"
  by (simp add: harmonic_end_def)

lemma origin_start_eq:
  "origin_start movable =
     \<lparr>maxstep = Fin (1 / 25), atoms = [[Fin 0, Fin 0, Fin 0]], H = None,
      H0 = [[Fin 70, Fin 0, Fin 0], [Fin 0, Fin 70, Fin 0], [Fin 0, Fin 0, Fin 70]],
      r0 = None, f0 = None, fmax = Fin (1 / 20), nsteps = 0, max_steps = 100000000\<rparr>"
  by (simp add: origin_start_def constant_force_env_def init_def test_env_def eye_3 mscale_def)

lemmas step_eval = step_def test_env_def get_positions_def get_forces_def update_def
  scalar_symeig_70 vecmat_def is_shape_def ncols_def eye_3 upt_rec vdiv_def matvec_def dotp_def
  row_lengths_def row_sumsq_def determine_step_def less_eq_fnum_def set_positions_def madd_def
  same_shape_def real_sqrt_divide power2_eq_square[symmetric] vsub_def minus_fnum_def max2_def
  Let_def

lemma harmonic_step:
  "step harmonic_env harmonic_start = Inr (harmonic_end\<lparr>nsteps := 0\<rparr>)"
  by (simp add: harmonic_start_eq harmonic_end_def harmonic_env_def step_eval)

lemma frozen_step1: "step (constant_force_env False) (origin_start False) = Inr frozen_next"
  by (simp add: origin_start_eq frozen_next_def constant_force_env_def step_eval)

lemma frozen_step2: "step (constant_force_env False) frozen_next = Inr frozen_next"
  by (simp add: frozen_next_def constant_force_env_def step_eval)

lemma harmonic_run: "run harmonic_env x harmonic_start = ([(1, Fin 0)], Inr harmonic_end)"
proof -
  have c0: "converged harmonic_env harmonic_start = Inr False"
    by (simp add: harmonic_start_eq harmonic_env_def converged_def test_env_def row_sumsq_def)
  have c1: "converged harmonic_env harmonic_end = Inr True"
    by (simp add: harmonic_env_def harmonic_end_def converged_def test_env_def row_sumsq_def)
  have r1: "run harmonic_env x harmonic_end = ([], Inr harmonic_end)"
    by (simp add: run.simps[of harmonic_env x harmonic_end] c1)
  have n: "nsteps harmonic_start < max_steps harmonic_start"
    by (simp add: harmonic_start_eq)
  have m: "tensor_max (row_sumsq (atoms_get_forces harmonic_env (atoms harmonic_end))) = Inr (Fin 0)"
    by (simp add: harmonic_end_def harmonic_env_def test_env_def row_sumsq_def)
  have e: "harmonic_end\<lparr>nsteps := Suc 0\<rparr> = harmonic_end"
    by (simp add: harmonic_end_def)
  show ?thesis
    using n m r1
    by (simp add: run.simps[of harmonic_env x harmonic_start] c0 harmonic_step e)
       (simp add: harmonic_end_def)
qed


lemma row_norm_z: "row_norm [0, 0, x] = \<bar>x\<bar>"
  by (simp add: row_norm_def)

lemma row_lengths_z: "row_lengths [[Fin 0, Fin 0, Fin x]] = [Fin \<bar>x\<bar>]"
  using row_lengths_Fin[of "[[0, 0, x]]"] by (simp add: row_norm_z)


lemma length3E:
  assumes "length xs = 3"
  obtains a b c where "xs = [a, b, c]"
  using assms by (auto simp: numeral_3_eq_3 length_Suc_conv)

lemma eigen_70:
  assumes "eigen_decomposition [[70, 0, 0], [0, 70, 0], [0, 0, 70]] w V"
  shows "w = [70, 70, 70] \<and> (\<exists>a b c d e f g h i. V = [[a, b, c], [d, e, f], [g, h, i]]
     \<and> g * a + h * b + i * c = 0 \<and> g * d + h * e + i * f = 0 \<and> g * g + h * h + i * i = 1)"
proof -
  from assms have lw: "length w = 3" and lV: "length V = 3"
    and rows: "list_all (\<lambda>row. length row = 3) V"
    by (simp_all add: eigen_decomposition_def numeral_3_eq_3)
  from lw obtain w1 w2 w3 where w: "w = [w1, w2, w3]" by (rule length3E)
  from lV obtain r1 r2 r3 where V0: "V = [r1, r2, r3]" by (rule length3E)
  from rows V0 have "length r1 = 3" "length r2 = 3" "length r3 = 3" by simp_all
  then obtain a b c d e f g h i where r: "r1 = [a, b, c]" "r2 = [d, e, f]" "r3 = [g, h, i]"
    by (metis length3E)
  note V = V0[unfolded r]
  from assms have on: "orthonormal V" and oc: "orthonormal (map (column V) [0..<3])"
    and ev: "list_all (\<lambda>j. map (\<lambda>row. rdot row (column V j)) [[70, 0, 0], [0, 70, 0], [0, 0, 70]]
        = map (\<lambda>x. w ! j * x) (column V j)) [0..<3]"
    by (simp_all add: eigen_decomposition_def numeral_3_eq_3)
  from on have R: "g * a + h * b + i * c = 0" "g * d + h * e + i * f = 0" "g * g + h * h + i * i = 1"
    by (simp_all add: orthonormal_def V rdot_def upt_rec)
  from oc have C: "a * a + d * d + g * g = 1" "b * b + e * e + h * h = 1" "c * c + f * f + i * i = 1"
    by (simp_all add: orthonormal_def V rdot_def upt_rec column_def)
  from ev have E1: "70 * a = w1 * a" "70 * d = w1 * d" "70 * g = w1 * g"
    and E2: "70 * b = w2 * b" "70 * e = w2 * e" "70 * h = w2 * h"
    and E3: "70 * c = w3 * c" "70 * f = w3 * f" "70 * i = w3 * i"
    by (simp_all add: V w rdot_def upt_rec column_def)
  have "w1 = 70"
  proof (rule ccontr)
    assume "w1 \<noteq> 70"
    with E1 have "a = 0" "d = 0" "g = 0" by auto
    with C(1) show False by simp
  qed
  moreover have "w2 = 70"
  proof (rule ccontr)
    assume "w2 \<noteq> 70"
    with E2 have "b = 0" "e = 0" "h = 0" by auto
    with C(2) show False by simp
  qed
  moreover have "w3 = 70"
  proof (rule ccontr)
    assume "w3 \<noteq> 70"
    with E3 have "c = 0" "f = 0" "i = 0" by auto
    with C(3) show False by simp
  qed
  ultimately show ?thesis using w V R by blast
qed


lemma newton_direction_70:
  assumes "eigen_decomposition [[70, 0, 0], [0, 70, 0], [0, 0, 70]] w V"
  shows "ebind (vecmat [Fin 0, Fin 0, Fin (- 1)] (map (map Fin) V)) (\<lambda>p.
         ebind (vdiv p (map abs (map Fin w))) (\<lambda>q.
         matvec (map (map Fin) V) q)) = Inr [Fin 0, Fin 0, Fin (- 1 / 70)]"
proof -
  from eigen_70[OF assms] obtain a b c d e f g h i where w: "w = [70, 70, 70]"
    and V: "V = [[a, b, c], [d, e, f], [g, h, i]]"
    and R: "g * a + h * b + i * c = 0" "g * d + h * e + i * f = 0" "g * g + h * h + i * i = 1"
    by blast
  have 1: "a * (- g / 70) + (b * (- h / 70) + c * (- i / 70)) = 0"
  proof -
    have "a * (- g / 70) + (b * (- h / 70) + c * (- i / 70)) = - (g * a + h * b + i * c) / 70"
      by (simp add: field_simps)
    with R(1) show ?thesis by simp
  qed
  have 2: "d * (- g / 70) + (e * (- h / 70) + f * (- i / 70)) = 0"
  proof -
    have "d * (- g / 70) + (e * (- h / 70) + f * (- i / 70)) = - (g * d + h * e + i * f) / 70"
      by (simp add: field_simps)
    with R(2) show ?thesis by simp
  qed
  have 3: "g * (- g / 70) + (h * (- h / 70) + i * (- i / 70)) = - 1 / 70"
  proof -
    have "g * (- g / 70) + (h * (- h / 70) + i * (- i / 70)) = - (g * g + h * h + i * i) / 70"
      by (simp add: field_simps)
    with R(3) show ?thesis by simp
  qed
  have p: "vecmat [Fin 0, Fin 0, Fin (- 1)] (map (map Fin) V) = Inr [Fin (- g), Fin (- h), Fin (- i)]"
    by (simp add: V vecmat_def is_shape_def ncols_def upt_rec)
  have q: "vdiv [Fin (- g), Fin (- h), Fin (- i)] (map abs (map Fin w)) =
      Inr [Fin (- g / 70), Fin (- h / 70), Fin (- i / 70)]"
    by (simp add: w vdiv_def)
  have m: "matvec (map (map Fin) V) [Fin (- g / 70), Fin (- h / 70), Fin (- i / 70)] =
      Inr [Fin (a * (- g / 70) + (b * (- h / 70) + c * (- i / 70))),
           Fin (d * (- g / 70) + (e * (- h / 70) + f * (- i / 70))),
           Fin (g * (- g / 70) + (h * (- h / 70) + i * (- i / 70)))]"
    by (simp add: V matvec_def is_shape_def dotp_def)
  show ?thesis unfolding p ebind_simps q m 1 2 3 ..
qed

section \<open>Construction and the first update\<close>

text \<open>
  Claim C4. The first \<^verbatim>\<open>update\<close> of a freshly constructed optimizer (\<open>H\<close> unset) sets
  \<open>H\<close> to \<open>alpha\<close> times the identity matrix of size \<open>3N\<close> and changes nothing else.
  The result is the same for every \<open>r\<close>, \<open>f\<close>, \<open>r0\<close> and \<open>f0\<close>, also for \<^verbatim>\<open>None\<close> and for
  tensors of any shape: they are not read.
\<close>

theorem first_update_sets_H0:
  "update (snd (init env a ms fm alpha)) r f r0' f0' =
     Inr ((snd (init env a ms fm alpha))\<lparr>H := Some (mscale (eye (3 * atoms_len env a)) alpha)\<rparr>)
   \<and> is_shape (3 * atoms_len env a) (3 * atoms_len env a) (mscale (eye (3 * atoms_len env a)) alpha)
   \<and> (\<forall>i < 3 * atoms_len env a. \<forall>j < 3 * atoms_len env a.
        mscale (eye (3 * atoms_len env a)) alpha ! i ! j = (if i = j then Fin 1 else Fin 0) * alpha)"
  by (simp add: update_def init_def mscale_shape[OF eye_shape] mscale_nth[OF eye_shape] eye_nth)

theorem first_update_sets_H0_witness:
  "update (snd (init (test_env (\<lambda>a. [[Fin 0, Fin 0, Fin (- 1)]]) True)
              [[Fin 0, Fin 0, Fin 0]] (Fin (1 / 25)) (Fin (1 / 20)) (Fin 70))) [] [] None None =
     Inr \<lparr>maxstep = Fin (1 / 25), atoms = [[Fin 0, Fin 0, Fin 0]],
          H = Some [[Fin 70, Fin 0, Fin 0], [Fin 0, Fin 70, Fin 0], [Fin 0, Fin 0, Fin 70]],
          H0 = [[Fin 70, Fin 0, Fin 0], [Fin 0, Fin 70, Fin 0], [Fin 0, Fin 0, Fin 70]],
          r0 = None, f0 = None, fmax = Fin (1 / 20), nsteps = 0, max_steps = 100000000\<rparr>"
  using first_update_sets_H0 [of "test_env (\<lambda>a. [[Fin 0, Fin 0, Fin (- 1)]]) True"
      "[[Fin 0, Fin 0, Fin 0]]" "Fin (1 / 25)" "Fin (1 / 20)" "Fin 70" "[]" "[]" None None]
  by (simp add: init_def test_env_def eye_3 mscale_def)

text \<open>
  Claim C9. Construction with \<open>maxstep > 1.0\<close> emits the warning and still returns the
  optimizer, with the given \<open>maxstep\<close> stored; with \<open>maxstep \<le> 1.0\<close> no warning is emitted.
\<close>

theorem init_maxstep_warning:
  "maxstep (snd (init env a ms fm alpha)) = ms
   \<and> (ms > Fin 1 \<longrightarrow> fst (init env a ms fm alpha) = [MaxstepTooLarge ms])
   \<and> (ms \<le> Fin 1 \<longrightarrow> fst (init env a ms fm alpha) = [])"
  by (auto simp: init_def dest: fnum_le_not_less)

theorem init_maxstep_warning_witness:
  "Fin 2 > Fin 1
   \<and> init (test_env (\<lambda>a. a) True) [[Fin 0, Fin 0, Fin 0]] (Fin 2) (Fin (1 / 20)) (Fin 70) =
     ([MaxstepTooLarge (Fin 2)],
      \<lparr>maxstep = Fin 2, atoms = [[Fin 0, Fin 0, Fin 0]], H = None,
       H0 = [[Fin 70, Fin 0, Fin 0], [Fin 0, Fin 70, Fin 0], [Fin 0, Fin 0, Fin 70]],
       r0 = None, f0 = None, fmax = Fin (1 / 20), nsteps = 0, max_steps = 100000000\<rparr>)
   \<and> Fin 1 \<le> Fin 1
   \<and> fst (init (test_env (\<lambda>a. a) True) [[Fin 0, Fin 0, Fin 0]] (Fin 1) (Fin (1 / 20)) (Fin 70)) = []"
  using init_maxstep_warning [of "test_env (\<lambda>a. a) True" "[[Fin 0, Fin 0, Fin 0]]" "Fin 2" "Fin (1 / 20)" "Fin 70"]
    init_maxstep_warning [of "test_env (\<lambda>a. a) True" "[[Fin 0, Fin 0, Fin 0]]" "Fin 1" "Fin (1 / 20)" "Fin 70"]
  by (simp add: init_def test_env_def eye_3 mscale_def less_eq_fnum_def)

section \<open>The convergence test\<close>



section \<open>The update of the matrix\<close>

text \<open>
  Claim C1. When \<open>H\<close> is set and the largest absolute component of \<open>dr = r - r0\<close> is at
  least \<open>1e-7\<close>, \<^verbatim>\<open>update\<close> replaces \<open>H\<close> by \<open>H - (outer(df,df)/a + outer(dg,dg)/b)\<close>,
  where \<open>df = f - f0\<close>, \<open>a = dr\<cdot>df\<close>, \<open>dg = H\<cdot>dr\<close> and \<open>b = dr\<cdot>dg\<close>: entry \<open>(i, j)\<close>
  of the new matrix is \<open>H\<^sub>i\<^sub>j - (df\<^sub>i df\<^sub>j / a + dg\<^sub>i dg\<^sub>j / b)\<close>. The vectors have length
  \<open>n\<close> and \<open>H\<close> is \<open>n \<times> n\<close>. The division is that of the tensors, so the equation also holds
  when \<open>a\<close> or \<open>b\<close> is zero. \<open>H0\<close> is the same tensor as \<open>H\<close> and changes with it.
\<close>

theorem update_formula:
  assumes "H s = Some Hm" and "is_shape n n Hm"
    and "length r = n" and "length r0v = n" and "length f = n" and "length f0v = n"
    and "dr = map2 (-) r r0v"
    and "tensor_max (map abs dr) = Inr m" and "m \<ge> Fin (1 / 10000000)"
    and "df = map2 (-) f f0v" and "a = dotp dr df"
    and "dg = map (\<lambda>row. dotp row dr) Hm" and "b = dotp dr dg"
  shows "\<exists>Hn. update s r f (Some r0v) (Some f0v) = Inr (s\<lparr>H := Some Hn, H0 := Hn\<rparr>)
    \<and> is_shape n n Hn
    \<and> (\<forall>i<n. \<forall>j<n. Hn ! i ! j = Hm ! i ! j - (df ! i * df ! j / a + dg ! i * dg ! j / b))"
proof -
  have big: "\<not> m < Fin (1 / 10000000)"
    using assms(9) by (rule fnum_le_not_less)
  have dg: "dg ! i = dotp (Hm ! i) dr" if "i < n" for i
    using that assms(2,12) by (simp add: is_shape_def)
  from update_nondegenerate[OF assms(1-6) assms(8)[unfolded assms(7)] big]
  show ?thesis
    unfolding assms(7,10,11,13) using dg unfolding assms(7,12) by simp
qed

theorem update_formula_witness:
  "H harmonic_end = Some [[Fin 70, Fin 0, Fin 0], [Fin 0, Fin 70, Fin 0], [Fin 0, Fin 0, Fin 70]]
   \<and> tensor_max (map abs (map2 (-) [Fin 0, Fin 0, Fin 0] [Fin 0, Fin 0, Fin (1 / 700)])) = Inr (Fin (1 / 700))
   \<and> Fin (1 / 700) \<ge> Fin (1 / 10000000)
   \<and> update harmonic_end [Fin 0, Fin 0, Fin 0] [Fin 0, Fin 0, Fin (- 1 / 20)]
        (Some [Fin 0, Fin 0, Fin (1 / 700)]) (Some [Fin 0, Fin 0, Fin (- 1 / 10)]) =
      Inr (harmonic_end\<lparr>H := Some [[Fin 70, Fin 0, Fin 0], [Fin 0, Fin 70, Fin 0], [Fin 0, Fin 0, Fin 35]],
                        H0 := [[Fin 70, Fin 0, Fin 0], [Fin 0, Fin 70, Fin 0], [Fin 0, Fin 0, Fin 35]]\<rparr>)"
proof -
  have m: "tensor_max (map abs (map2 (-) [Fin 0, Fin 0, Fin 0] [Fin 0, Fin 0, Fin (1 / 700)])) = Inr (Fin (1 / 700))"
    by (simp add: minus_fnum_def max2_def)
  have g: "Fin (1 / 700) \<ge> Fin (1 / 10000000)" by (simp add: less_eq_fnum_def)
  have sh: "is_shape 3 3 [[Fin 70, Fin 0, Fin 0], [Fin 0, Fin 70, Fin 0], [Fin 0, Fin 0, Fin 70]]"
    by (simp add: is_shape_def)
  have u: "update harmonic_end [Fin 0, Fin 0, Fin 0] [Fin 0, Fin 0, Fin (- 1 / 20)]
        (Some [Fin 0, Fin 0, Fin (1 / 700)]) (Some [Fin 0, Fin 0, Fin (- 1 / 10)]) =
      Inr (harmonic_end\<lparr>H := Some [[Fin 70, Fin 0, Fin 0], [Fin 0, Fin 70, Fin 0], [Fin 0, Fin 0, Fin 35]],
                        H0 := [[Fin 70, Fin 0, Fin 0], [Fin 0, Fin 70, Fin 0], [Fin 0, Fin 0, Fin 35]]\<rparr>)"
    by (simp add: update_def vsub_def dot_def dotp_def matvec_def is_shape_def ger_def mdiv_def
        madd_def msub_def same_shape_def minus_fnum_def max2_def harmonic_end_def)
  from update_formula[OF harmonic_end_H sh _ _ _ _ refl m g refl refl refl refl,
      of "[Fin 0, Fin 0, Fin (- 1 / 20)]" "[Fin 0, Fin 0, Fin (- 1 / 10)]"] u m g harmonic_end_H
  show ?thesis by simp
qed
text \<open>
  Claim C8. \<^verbatim>\<open>update\<close> divides by \<open>a = dr\<cdot>df\<close> and \<open>b = dr\<cdot>dg\<close> without looking at them.
  On every step that is not degenerate and has \<open>a = 0\<close> or \<open>b = 0\<close>, it returns normally
  (no error), and every entry of the matrix it stores is an infinity or \<^verbatim>\<open>nan\<close>. The
  concrete input below is such a step.
\<close>

theorem update_zero_denominator:
  assumes "H s = Some Hm" and "is_shape n n Hm"
    and "length r = n" and "length r0v = n" and "length f = n" and "length f0v = n"
    and "dr = map2 (-) r r0v"
    and "tensor_max (map abs dr) = Inr m" and "m \<ge> Fin (1 / 10000000)"
    and "df = map2 (-) f f0v" and "a = dotp dr df"
    and "dg = map (\<lambda>row. dotp row dr) Hm" and "b = dotp dr dg"
    and "a = Fin 0 \<or> b = Fin 0"
  shows "\<exists>Hn. update s r f (Some r0v) (Some f0v) = Inr (s\<lparr>H := Some Hn, H0 := Hn\<rparr>)
    \<and> is_shape n n Hn \<and> (\<forall>i<n. \<forall>j<n. \<not> is_finite (Hn ! i ! j))"
proof -
  have big: "\<not> m < Fin (1 / 10000000)"
    using assms(9) by (rule fnum_le_not_less)
  have dg: "dg ! i = dotp (Hm ! i) dr" if "i < n" for i
    using that assms(2,12) by (simp add: is_shape_def)
  from update_nondegenerate[OF assms(1-6) assms(8)[unfolded assms(7)] big]
  obtain Hn where u: "update s r f (Some r0v) (Some f0v) = Inr (s\<lparr>H := Some Hn, H0 := Hn\<rparr>)"
    and sh: "is_shape n n Hn"
    and e: "\<forall>i<n. \<forall>j<n. Hn ! i ! j = Hm ! i ! j - (df ! i * df ! j / a + dg ! i * dg ! j / b)"
    unfolding assms(7,10,11,13) using dg unfolding assms(7,12) by auto
  have "\<not> is_finite (Hn ! i ! j)" if "i < n" "j < n" for i j
  proof -
    have "\<not> is_finite (df ! i * df ! j / a) \<or> \<not> is_finite (dg ! i * dg ! j / b)"
      using assms(14) div_zero_not_finite by auto
    then have "\<not> is_finite (df ! i * df ! j / a + dg ! i * dg ! j / b)"
      by (rule add_not_finite)
    then show ?thesis using e that by (simp add: sub_not_finite)
  qed
  with u sh show ?thesis by blast
qed

theorem update_zero_denominator_witness:
  "H harmonic_end = Some [[Fin 70, Fin 0, Fin 0], [Fin 0, Fin 70, Fin 0], [Fin 0, Fin 0, Fin 70]]
   \<and> tensor_max (map abs (map2 (-) [Fin 1, Fin 0, Fin 0] [Fin 0, Fin 0, Fin 0])) = Inr (Fin 1)
   \<and> Fin 1 \<ge> Fin (1 / 10000000)
   \<and> dotp (map2 (-) [Fin 1, Fin 0, Fin 0] [Fin 0, Fin 0, Fin 0])
          (map2 (-) [Fin 0, Fin 1, Fin 0] [Fin 0, Fin 0, Fin 0]) = Fin 0
   \<and> update harmonic_end [Fin 1, Fin 0, Fin 0] [Fin 0, Fin 1, Fin 0]
        (Some [Fin 0, Fin 0, Fin 0]) (Some [Fin 0, Fin 0, Fin 0]) =
      Inr (harmonic_end\<lparr>H := Some [[NaN, NaN, NaN], [NaN, NInf, NaN], [NaN, NaN, NaN]],
                        H0 := [[NaN, NaN, NaN], [NaN, NInf, NaN], [NaN, NaN, NaN]]\<rparr>)"
proof -
  have m: "tensor_max (map abs (map2 (-) [Fin 1, Fin 0, Fin 0] [Fin 0, Fin 0, Fin 0])) = Inr (Fin 1)"
    by (simp add: minus_fnum_def max2_def)
  have g: "Fin 1 \<ge> Fin (1 / 10000000)" by (simp add: less_eq_fnum_def)
  have sh: "is_shape 3 3 [[Fin 70, Fin 0, Fin 0], [Fin 0, Fin 70, Fin 0], [Fin 0, Fin 0, Fin 70]]"
    by (simp add: is_shape_def)
  have a: "dotp (map2 (-) [Fin 1, Fin 0, Fin 0] [Fin 0, Fin 0, Fin 0])
          (map2 (-) [Fin 0, Fin 1, Fin 0] [Fin 0, Fin 0, Fin 0]) = Fin 0"
    by (simp add: dotp_def minus_fnum_def)
  have u: "update harmonic_end [Fin 1, Fin 0, Fin 0] [Fin 0, Fin 1, Fin 0]
        (Some [Fin 0, Fin 0, Fin 0]) (Some [Fin 0, Fin 0, Fin 0]) =
      Inr (harmonic_end\<lparr>H := Some [[NaN, NaN, NaN], [NaN, NInf, NaN], [NaN, NaN, NaN]],
                        H0 := [[NaN, NaN, NaN], [NaN, NInf, NaN], [NaN, NaN, NaN]]\<rparr>)"
    by (simp add: update_def vsub_def dot_def dotp_def matvec_def is_shape_def ger_def mdiv_def
        madd_def msub_def same_shape_def minus_fnum_def max2_def harmonic_end_def)
  from update_zero_denominator[OF harmonic_end_H sh _ _ _ _ refl m g refl refl refl refl,
      of "[Fin 0, Fin 1, Fin 0]" "[Fin 0, Fin 0, Fin 0]"] u m g a harmonic_end_H
  show ?thesis by simp
qed
text \<open>
  Claim C6. Symmetry is an invariant of \<open>H\<close>. The matrix \<open>alpha * I\<close> that construction
  prepares, and that the first \<^verbatim>\<open>update\<close> installs, is symmetric, and every \<^verbatim>\<open>update\<close> that
  returns keeps \<open>H\<close> (and \<open>H0\<close>) symmetric: the entry \<open>(i, j)\<close> and the entry \<open>(j, i)\<close> of
  \<open>outer(df,df)/a + outer(dg,dg)/b\<close> are computed from the same numbers, and multiplication
  commutes. This needs no assumption on \<open>a\<close> and \<open>b\<close>; entries are compared as values of
  the model, in which \<^verbatim>\<open>nan\<close> is one value.
\<close>

theorem symmetry_invariant:
  "sym_inv (snd (init env a ms fm alpha))
   \<and> (sym_inv s \<and> update s r f r0' f0' = Inr s' \<longrightarrow> sym_inv s')"
proof -
  have "sym_inv (snd (init env a ms fm alpha))"
    by (simp add: sym_inv_def init_def symmetric_mscale_eye)
  moreover have "sym_inv s'" if inv: "sym_inv s" and u: "update s r f r0' f0' = Inr s'"
  proof (cases "H s")
    case None
    with u have "s' = s\<lparr>H := Some (H0 s)\<rparr>" by (simp add: update_def)
    with inv show ?thesis by (simp add: sym_inv_def)
  next
    case (Some Hm)
    with inv have sym: "symmetric Hm" by (simp add: sym_inv_def)
    from update_set_cases[OF Some u] show ?thesis
    proof
      assume "s' = s"
      with inv show ?thesis by simp
    next
      assume "\<exists>r0v f0v dr df a dg b val Hn.
        r0' = Some r0v \<and> f0' = Some f0v \<and> vsub r r0v = Inr dr \<and> vsub f f0v = Inr df \<and>
        dot dr df = Inr a \<and> matvec Hm dr = Inr dg \<and> dot dr dg = Inr b \<and>
        madd (mdiv (ger df df) a) (mdiv (ger dg dg) b) = Inr val \<and> msub Hm val = Inr Hn \<and>
        s' = s\<lparr>H := Some Hn, H0 := Hn\<rparr>"
      then obtain df a dg b val Hn where
        "madd (mdiv (ger df df) a) (mdiv (ger dg dg) b) = Inr val" "msub Hm val = Inr Hn"
        and s': "s' = s\<lparr>H := Some Hn, H0 := Hn\<rparr>"
        by blast
      from rank_update_symmetric[OF sym this(1,2)] s' show ?thesis
        by (simp add: sym_inv_def)
    qed
  qed
  ultimately show ?thesis by blast
qed

theorem symmetry_invariant_witness:
  "sym_inv harmonic_end
   \<and> update harmonic_end [Fin 0, Fin 0, Fin 0] [Fin 0, Fin 0, Fin (- 1 / 20)]
        (Some [Fin 0, Fin 0, Fin (1 / 700)]) (Some [Fin 0, Fin 0, Fin (- 1 / 10)]) =
      Inr (harmonic_end\<lparr>H := Some [[Fin 70, Fin 0, Fin 0], [Fin 0, Fin 70, Fin 0], [Fin 0, Fin 0, Fin 35]],
                        H0 := [[Fin 70, Fin 0, Fin 0], [Fin 0, Fin 70, Fin 0], [Fin 0, Fin 0, Fin 35]]\<rparr>)
   \<and> sym_inv (harmonic_end\<lparr>H := Some [[Fin 70, Fin 0, Fin 0], [Fin 0, Fin 70, Fin 0], [Fin 0, Fin 0, Fin 35]],
                        H0 := [[Fin 70, Fin 0, Fin 0], [Fin 0, Fin 70, Fin 0], [Fin 0, Fin 0, Fin 35]]\<rparr>)"
proof -
  have i: "sym_inv harmonic_end"
    by (simp add: sym_inv_def symmetric_def is_shape_def harmonic_end_def upt_rec)
  have u: "update harmonic_end [Fin 0, Fin 0, Fin 0] [Fin 0, Fin 0, Fin (- 1 / 20)]
        (Some [Fin 0, Fin 0, Fin (1 / 700)]) (Some [Fin 0, Fin 0, Fin (- 1 / 10)]) =
      Inr (harmonic_end\<lparr>H := Some [[Fin 70, Fin 0, Fin 0], [Fin 0, Fin 70, Fin 0], [Fin 0, Fin 0, Fin 35]],
                        H0 := [[Fin 70, Fin 0, Fin 0], [Fin 0, Fin 70, Fin 0], [Fin 0, Fin 0, Fin 35]]\<rparr>)"
    by (simp add: update_def vsub_def dot_def dotp_def matvec_def is_shape_def ger_def mdiv_def
        madd_def msub_def same_shape_def minus_fnum_def max2_def harmonic_end_def)
  from symmetry_invariant[of harmonic_env "[[Fin 0, Fin 0, Fin (1 / 700)]]" "Fin (1 / 25)"
      "Fin (1 / 20)" "Fin 70" harmonic_end "[Fin 0, Fin 0, Fin 0]" "[Fin 0, Fin 0, Fin (- 1 / 20)]"
      "Some [Fin 0, Fin 0, Fin (1 / 700)]" "Some [Fin 0, Fin 0, Fin (- 1 / 10)]"
      "harmonic_end\<lparr>H := Some [[Fin 70, Fin 0, Fin 0], [Fin 0, Fin 70, Fin 0], [Fin 0, Fin 0, Fin 35]],
                        H0 := [[Fin 70, Fin 0, Fin 0], [Fin 0, Fin 70, Fin 0], [Fin 0, Fin 0, Fin 35]]\<rparr>"] i u
  show ?thesis by blast
qed

text \<open>
  Claim C5. When \<open>H\<close> is set and the largest absolute component of \<open>dr = r - r0\<close> is below
  \<open>1e-7\<close>, \<^verbatim>\<open>update\<close> returns the optimizer unchanged. Hence, if a \<^verbatim>\<open>step\<close> has returned and
  the system then reports the same (finite) positions again, the \<^verbatim>\<open>update\<close> of the next
  \<^verbatim>\<open>step\<close> changes nothing, and that step leaves \<open>H\<close> as it was.
\<close>

theorem degenerate_update_skipped:
  "(H s = Some Hm \<and> vsub r r0v = Inr dr \<and> tensor_max (map abs dr) = Inr m
      \<and> m < Fin (1 / 10000000) \<longrightarrow> update s r f (Some r0v) f0' = Inr s)
   \<and> (step env s0 = Inr s1 \<and> get_positions env s1 = get_positions env s0
        \<and> list_all (list_all is_finite) (get_positions env s0)
      \<longrightarrow> update s1 (concat (get_positions env s1)) (concat (get_forces env s1)) (r0 s1) (f0 s1) = Inr s1
          \<and> (\<forall>s2. step env s1 = Inr s2 \<longrightarrow> H s2 = H s1))"
proof -
  have second: "update s1 (concat (get_positions env s1)) (concat (get_forces env s1)) (r0 s1) (f0 s1) = Inr s1
          \<and> (\<forall>s2. step env s1 = Inr s2 \<longrightarrow> H s2 = H s1)"
    if st: "step env s0 = Inr s1" and same: "get_positions env s1 = get_positions env s0"
      and fin: "list_all (list_all is_finite) (get_positions env s0)"
  proof -
    let ?r = "concat (get_positions env s0)"
    from step_Inr[OF st] obtain t Hm' where
      "update s0 ?r (concat (get_forces env s0)) (r0 s0) (f0 s0) = Inr t"
      and Ht: "H t = Some Hm'" and "H s1 = H t" and r0: "r0 s1 = Some ?r"
      by auto
    then have Hs1: "H s1 = Some Hm'" by simp
    have ne: "?r \<noteq> []" by (rule step_positions_nonempty[OF st])
    have finr: "list_all is_finite ?r" using fin by (auto simp: list_all_iff)
    have v: "vsub ?r ?r = Inr (map2 (-) ?r ?r)" by (simp add: vsub_def)
    have m: "tensor_max (map abs (map2 (-) ?r ?r)) = Inr (Fin 0)"
      unfolding map2_sub_self[OF finr] using ne by (intro tensor_max_zeros) simp
    have u: "update s1 (concat (get_positions env s1)) (concat (get_forces env s1)) (r0 s1) (f0 s1) = Inr s1"
      unfolding same r0 by (rule update_degenerate[OF Hs1 v m]) simp
    have "H s2 = H s1" if "step env s1 = Inr s2" for s2
      using step_Inr[OF that] u by auto
    with u show ?thesis by blast
  qed
  show ?thesis using update_degenerate second by blast
qed

theorem degenerate_update_skipped_witness:
  "H frozen_next = Some [[Fin 70, Fin 0, Fin 0], [Fin 0, Fin 70, Fin 0], [Fin 0, Fin 0, Fin 70]]
   \<and> vsub [Fin 0, Fin 0, Fin 0] [Fin 0, Fin 0, Fin 0] = Inr [Fin 0, Fin 0, Fin 0]
   \<and> tensor_max (map abs [Fin 0, Fin 0, Fin 0]) = Inr (Fin 0)
   \<and> Fin 0 < Fin (1 / 10000000)
   \<and> update frozen_next [Fin 0, Fin 0, Fin 0] [Fin 0, Fin 0, Fin (- 1)]
        (Some [Fin 0, Fin 0, Fin 0]) (Some [Fin 0, Fin 0, Fin (- 1)]) = Inr frozen_next
   \<and> step (constant_force_env False) (origin_start False) = Inr frozen_next
   \<and> get_positions (constant_force_env False) frozen_next =
       get_positions (constant_force_env False) (origin_start False)
   \<and> list_all (list_all is_finite) (get_positions (constant_force_env False) (origin_start False))
   \<and> step (constant_force_env False) frozen_next = Inr frozen_next"
proof -
  have h: "H frozen_next = Some [[Fin 70, Fin 0, Fin 0], [Fin 0, Fin 70, Fin 0], [Fin 0, Fin 0, Fin 70]]"
    by (simp add: frozen_next_def)
  have v: "vsub [Fin 0, Fin 0, Fin 0] [Fin 0, Fin 0, Fin 0] = Inr [Fin 0, Fin 0, Fin 0]"
    by (simp add: vsub_def minus_fnum_def)
  have m: "tensor_max (map abs [Fin 0, Fin 0, Fin 0]) = Inr (Fin 0)"
    by (simp add: max2_def)
  have l: "Fin 0 < Fin (1 / 10000000)" by simp
  have p: "get_positions (constant_force_env False) frozen_next =
       get_positions (constant_force_env False) (origin_start False)"
    by (simp add: get_positions_def frozen_next_def origin_start_eq)
  have f: "list_all (list_all is_finite) (get_positions (constant_force_env False) (origin_start False))"
    by (simp add: get_positions_def origin_start_eq constant_force_env_def test_env_def)
  from degenerate_update_skipped[of frozen_next _ "[Fin 0, Fin 0, Fin 0]" "[Fin 0, Fin 0, Fin 0]"
      "[Fin 0, Fin 0, Fin 0]" "Fin 0" "[Fin 0, Fin 0, Fin (- 1)]" "Some [Fin 0, Fin 0, Fin (- 1)]"
      "constant_force_env False" "origin_start False" frozen_next]
    h v m l p f frozen_step1 frozen_step2
  show ?thesis by simp
qed
section \<open>Capping the step\<close>




section \<open>The first step of one particle\<close>

text \<open>
  Claim C7. One particle at the origin with force \<open>(0, 0, -1)\<close>, \<open>alpha = 70\<close> and
  \<open>maxstep = 0.04\<close>. Whatever orthonormal eigenvectors \<^verbatim>\<open>torch.symeig\<close> returns for
  \<open>70 I\<close>, the first \<^verbatim>\<open>step\<close> sets \<open>H\<close> to \<open>70 I\<close>, computes the displacement
  \<open>(0, 0, -1/70)\<close> of length \<open>1/70\<close>, which \<^verbatim>\<open>determine_step\<close> returns unscaled, and writes
  the position \<open>(0, 0, -1/70)\<close> to the system; it records \<open>r0\<close> and \<open>f0\<close>.
\<close>

theorem first_step_scenario:
  assumes "atoms_len env a = 1"
    and "atoms_get_positions env a = [[Fin 0, Fin 0, Fin 0]]"
    and "atoms_get_forces env a = [[Fin 0, Fin 0, Fin (- 1)]]"
    and "s = snd (init env a (Fin (1 / 25)) fm (Fin 70))"
    and "torch_symeig env (mscale (eye 3) (Fin 70)) = Inr (map Fin w, map (map Fin) V)"
    and "eigen_decomposition [[70, 0, 0], [0, 70, 0], [0, 0, 70]] w V"
  shows "step env s =
      Inr (s\<lparr>atoms := atoms_set_positions env a [[Fin 0, Fin 0, Fin (- 1 / 70)]],
             H := Some (mscale (eye 3) (Fin 70)),
             r0 := Some [Fin 0, Fin 0, Fin 0], f0 := Some [Fin 0, Fin 0, Fin (- 1)]\<rparr>)
    \<and> row_lengths [[Fin 0, Fin 0, Fin (- 1 / 70)]] = [Fin (1 / 70)]
    \<and> determine_step (s\<lparr>H := Some (mscale (eye 3) (Fin 70))\<rparr>) [[Fin 0, Fin 0, Fin (- 1 / 70)]]
         (row_lengths [[Fin 0, Fin 0, Fin (- 1 / 70)]]) = Inr [[Fin 0, Fin 0, Fin (- 1 / 70)]]"
proof -
  have s: "s = \<lparr>maxstep = Fin (1 / 25), atoms = a, H = None, H0 = mscale (eye 3) (Fin 70),
      r0 = None, f0 = None, fmax = fm, nsteps = 0, max_steps = 100000000\<rparr>"
    by (simp add: assms(1,4) init_def)
  have rl: "row_lengths [[Fin 0, Fin 0, Fin (- 1 / 70)]] = [Fin (1 / 70)]"
    by (simp add: row_lengths_z)
  have ds: "determine_step t dr [Fin y] = Inr dr" if "maxstep t = Fin (1 / 25)" "y < 1 / 25"
    for t :: "'a bfgs" and dr y
    using that by (simp add: determine_step_def less_eq_fnum_def)
  have nd: "ebind (vecmat [Fin 0, Fin 0, Fin (- 1)] (map (map Fin) V)) (\<lambda>p.
         ebind (vdiv p (map abs (map Fin w))) (\<lambda>q.
         ebind (matvec (map (map Fin) V) q) k)) = k [Fin 0, Fin 0, Fin (- 1 / 70)]"
    for k :: "vec \<Rightarrow> error + 'a bfgs"
    using newton_direction_70[OF assms(6)]
    by (auto simp: ebind_eq_Inr)
  have st: "step env s =
      Inr (s\<lparr>atoms := atoms_set_positions env a [[Fin 0, Fin 0, Fin (- 1 / 70)]],
             H := Some (mscale (eye 3) (Fin 70)),
             r0 := Some [Fin 0, Fin 0, Fin 0], f0 := Some [Fin 0, Fin 0, Fin (- 1)]\<rparr>)"
    unfolding step_def Let_def
    by (simp add: s get_positions_def get_forces_def assms(2,3,5) update_def nd row_lengths_z ds
        set_positions_def madd_def same_shape_def Let_def del: map_map)
  from st rl show ?thesis
    by (simp add: s ds row_lengths_z)
qed

theorem first_step_scenario_witness:
  "atoms_len (constant_force_env True) [[Fin 0, Fin 0, Fin 0]] = 1
   \<and> torch_symeig (constant_force_env True) (mscale (eye 3) (Fin 70)) =
       Inr (map Fin [70, 70, 70], map (map Fin) [[1, 0, 0], [0, 1, 0], [0, 0, 1]])
   \<and> eigen_decomposition [[70, 0, 0], [0, 70, 0], [0, 0, 70]] [70, 70, 70]
         [[1, 0, 0], [0, 1, 0], [0, 0, 1]]
   \<and> step (constant_force_env True) (origin_start True) =
       Inr \<lparr>maxstep = Fin (1 / 25), atoms = [[Fin 0, Fin 0, Fin (- 1 / 70)]],
            H = Some [[Fin 70, Fin 0, Fin 0], [Fin 0, Fin 70, Fin 0], [Fin 0, Fin 0, Fin 70]],
            H0 = [[Fin 70, Fin 0, Fin 0], [Fin 0, Fin 70, Fin 0], [Fin 0, Fin 0, Fin 70]],
            r0 = Some [Fin 0, Fin 0, Fin 0], f0 = Some [Fin 0, Fin 0, Fin (- 1)],
            fmax = Fin (1 / 20), nsteps = 0, max_steps = 100000000\<rparr>"
proof -
  have l: "atoms_len (constant_force_env True) [[Fin 0, Fin 0, Fin 0]] = 1"
    and p: "atoms_get_positions (constant_force_env True) [[Fin 0, Fin 0, Fin 0]] = [[Fin 0, Fin 0, Fin 0]]"
    and f: "atoms_get_forces (constant_force_env True) [[Fin 0, Fin 0, Fin 0]] = [[Fin 0, Fin 0, Fin (- 1)]]"
    and sp: "atoms_set_positions (constant_force_env True) [[Fin 0, Fin 0, Fin 0]] new = new" for new
    by (simp_all add: constant_force_env_def test_env_def)
  have e: "torch_symeig (constant_force_env True) (mscale (eye 3) (Fin 70)) =
       Inr (map Fin [70, 70, 70], map (map Fin) [[1, 0, 0], [0, 1, 0], [0, 0, 1]])"
    by (simp add: constant_force_env_def test_env_def eye_3 mscale_def scalar_symeig_70)
  have d: "eigen_decomposition [[70, 0, 0], [0, 70, 0], [0, 0, 70]] [70, 70, 70]
         [[1, 0, 0], [0, 1, 0], [0, 0, 1]]"
    by (simp add: eigen_decomposition_def orthonormal_def rdot_def column_def upt_rec)
  from first_step_scenario[OF l p f origin_start_def e d] l e d
  show ?thesis by (simp add: origin_start_eq sp eye_3 mscale_def)
qed
section \<open>The driving loop\<close>

text \<open>
  Claim C10. The argument \<open>fmax\<close> of \<^verbatim>\<open>run\<close> is not used: for any two values of it, the
  printed lines and the final state (or error) are the same. Convergence is tested against
  the \<open>fmax\<close> field set at construction.
\<close>

theorem run_fmax_unused: "run env a s = run env b s"
proof (induction env a s rule: run.induct)
  case (1 env fmax_arg s)
  show ?case
  proof (cases "converged env s")
    case (Inl e)
    then show ?thesis by (simp add: run.simps[of env _ s])
  next
    case (Inr c)
    show ?thesis
    proof (cases "\<not> c \<and> nsteps s < max_steps s")
      case False
      then have "c \<or> \<not> nsteps s < max_steps s" by blast
      with Inr show ?thesis by (auto simp add: run.simps[of env _ s])
    next
      case go: True
      show ?thesis
      proof (cases "step env s")
        case (Inl e)
        with Inr go show ?thesis by (simp add: run.simps[of env _ s])
      next
        case st: (Inr s1)
        show ?thesis
        proof (cases "tensor_max (row_sumsq (atoms_get_forces env (atoms (s1\<lparr>nsteps := nsteps s1 + 1\<rparr>))))")
          case (Inl e)
          with Inr go st show ?thesis by (simp add: run.simps[of env _ s] Let_def)
        next
          case m: (Inr m)
          have "run env fmax_arg (s1\<lparr>nsteps := nsteps s1 + 1\<rparr>) = run env b (s1\<lparr>nsteps := nsteps s1 + 1\<rparr>)"
            using "1.IH"[OF Inr go st refl refl] m by simp
          with Inr go st m show ?thesis by (simp add: run.simps[of env _ s] Let_def)
        qed
      qed
    qed
  qed
qed

theorem run_fmax_unused_witness:
  "run harmonic_env (Fin 3) harmonic_start = ([(1, Fin 0)], Inr harmonic_end)
   \<and> run harmonic_env PInf harmonic_start = ([(1, Fin 0)], Inr harmonic_end)"
  using run_fmax_unused [of harmonic_env "Fin 3" harmonic_start PInf] harmonic_run [of "Fin 3"]
  by simp

end
